theory Spec2Isabelle
  imports Main
begin

section \<open>Python values the B-tree code relies on\<close>

text \<open>
  The repository is a Python B-tree index: \<^verbatim>\<open>key_value_pair.py\<close> (the entry),
  \<^verbatim>\<open>btree_node.py\<close> (the node) and \<^verbatim>\<open>btree_index.py\<close> (the tree). Exceptions
  are values of \<open>error\<close>; a function that may raise returns \<open>error + 'a\<close>, with
  \<open>Inl\<close> for the exception. A raised exception aborts the public operation, so no
  state is returned beside it.
\<close>

datatype error = ValueError | TypeError | IndexError | RecursionError

definition bind :: "error + 'a \<Rightarrow> ('a \<Rightarrow> error + 'b) \<Rightarrow> error + 'b" where
  "bind m f = (case m of Inl e \<Rightarrow> Inl e | Inr x \<Rightarrow> f x)"

text \<open>
  List indexing, \<^verbatim>\<open>list.pop(i)\<close> and \<^verbatim>\<open>list.insert(i, x)\<close> with Python's
  treatment of the index: a negative index counts from the end, an index outside the
  list raises IndexError for a read or a pop, and \<^verbatim>\<open>insert\<close> clamps it.
\<close>

definition py_get :: "'a list \<Rightarrow> int \<Rightarrow> error + 'a" where
  "py_get xs i =
     (let n = int (length xs); j = (if i < 0 then i + n else i)
      in if 0 \<le> j \<and> j < n then Inr (xs ! nat j) else Inl IndexError)"

definition py_pop :: "'a list \<Rightarrow> int \<Rightarrow> error + ('a \<times> 'a list)" where
  "py_pop xs i =
     (let n = int (length xs); j = (if i < 0 then i + n else i)
      in if 0 \<le> j \<and> j < n
         then Inr (xs ! nat j, take (nat j) xs @ drop (Suc (nat j)) xs)
         else Inl IndexError)"

definition py_insert :: "'a list \<Rightarrow> int \<Rightarrow> 'a \<Rightarrow> 'a list" where
  "py_insert xs i x =
     (let n = int (length xs);
          j = (if i < 0 then max 0 (i + n) else min i n)
      in take (nat j) xs @ x # drop (nat j) xs)"

text \<open>
  \<^verbatim>\<open>bisect.bisect_left(a, x)\<close> of the standard library: the binary search
  \<^verbatim>\<open>while lo < hi: mid = (lo + hi) // 2; if a[mid] < x: lo = mid + 1 else: hi = mid\<close>
  started at \<open>lo = 0\<close>, \<open>hi = len(a)\<close>. Keys are compared with the order of the key type.
\<close>

function bisect_left_loop :: "'k::linorder list \<Rightarrow> 'k \<Rightarrow> nat \<Rightarrow> nat \<Rightarrow> nat" where
  "bisect_left_loop a x lo hi =
     (if lo < hi
      then (let mid = (lo + hi) div 2
            in if a ! mid < x then bisect_left_loop a x (mid + 1) hi
               else bisect_left_loop a x lo mid)
      else lo)"
  by pat_completeness auto
termination
  by (relation "measure (\<lambda>(a, x, lo, hi). hi - lo)") auto

declare bisect_left_loop.simps [simp del]

definition bisect_left :: "'k::linorder list \<Rightarrow> 'k \<Rightarrow> nat" where
  "bisect_left a x = bisect_left_loop a x 0 (length a)"

section \<open>The entry and the node\<close>

text \<open>
  A stored value is any Python object, \<^verbatim>\<open>None\<close> included: the value type is
  \<open>'v option\<close>, with \<open>None\<close> for Python's \<^verbatim>\<open>None\<close>. A node holds its minimum degree,
  the leaf flag, the entries and the children (\<^verbatim>\<open>__slots__\<close> of \<^verbatim>\<open>BTreeNode\<close>). Every
  node is owned by one parent, so the heap of nodes is a tree and a node is modelled
  as a value; a mutation of a child through an alias is written back into the
  parent's list of children at the child's index.
\<close>

datatype ('k, 'v) key_value_pair = KeyValuePair (key: 'k) (val: "'v option")

datatype ('k, 'v) node =
  Node (min_degree: int) (is_leaf: bool)
       (key_value_pairs: "('k, 'v) key_value_pair list")
       (children: "('k, 'v) node list")

definition len :: "('k, 'v) node \<Rightarrow> int" where
  "len n = int (length (key_value_pairs n))"

definition keys_of :: "('k, 'v) node \<Rightarrow> 'k list" where
  "keys_of n = map key (key_value_pairs n)"

definition get_key :: "('k, 'v) node \<Rightarrow> int \<Rightarrow> error + 'k" where
  "get_key n i = bind (py_get (key_value_pairs n) i) (\<lambda>p. Inr (key p))"

definition get_value :: "('k, 'v) node \<Rightarrow> int \<Rightarrow> error + 'v option" where
  "get_value n i = bind (py_get (key_value_pairs n) i) (\<lambda>p. Inr (val p))"

definition get_child :: "('k, 'v) node \<Rightarrow> int \<Rightarrow> error + ('k, 'v) node" where
  "get_child n i = py_get (children n) i"

definition is_full :: "('k, 'v) node \<Rightarrow> bool" where
  "is_full n \<longleftrightarrow> len n \<ge> 2 * min_degree n - 1"

definition find_key_index :: "('k::linorder, 'v) node \<Rightarrow> 'k \<Rightarrow> int" where
  "find_key_index n k =
     (if key_value_pairs n = [] then - 1
      else (let keys = keys_of n; position = bisect_left keys k
            in if position < length keys \<and> keys ! position = k then int position
               else - (int position + 1)))"

definition get_child_index :: "('k::linorder, 'v) node \<Rightarrow> 'k \<Rightarrow> int" where
  "get_child_index n k =
     (let key_index = find_key_index n k
      in if key_index \<ge> 0 then key_index + 1 else - (key_index + 1))"

subsection \<open>The binary search returns the insertion point\<close>

lemma bisect_left_loop_spec:
  assumes "sorted a" "lo \<le> hi" "hi \<le> length a"
    and "\<forall>i<lo. a ! i < x" and "\<forall>i. hi \<le> i \<and> i < length a \<longrightarrow> x \<le> a ! i"
  shows "lo \<le> bisect_left_loop a x lo hi \<and> bisect_left_loop a x lo hi \<le> hi
       \<and> (\<forall>i<bisect_left_loop a x lo hi. a ! i < x)
       \<and> (\<forall>i. bisect_left_loop a x lo hi \<le> i \<and> i < length a \<longrightarrow> x \<le> a ! i)"
  using assms
proof (induction a x lo hi rule: bisect_left_loop.induct)
  case (1 a x lo hi)
  show ?case
  proof (cases "lo < hi")
    case False
    then have "bisect_left_loop a x lo hi = lo"
      by (subst bisect_left_loop.simps) simp
    with "1.prems" False show ?thesis by simp
  next
    case True
    define mid where "mid = (lo + hi) div 2"
    have mid: "lo \<le> mid" "mid < hi" using True by (auto simp: mid_def)
    show ?thesis
    proof (cases "a ! mid < x")
      case lt: True
      have below: "\<forall>i<mid + 1. a ! i < x"
      proof (intro allI impI)
        fix i assume "i < mid + 1"
        then have "i \<le> mid" by simp
        then have "a ! i \<le> a ! mid"
          using \<open>sorted a\<close> mid "1.prems"(3) by (auto simp: sorted_iff_nth_mono)
        with lt show "a ! i < x" by simp
      qed
      have "lo \<le> bisect_left_loop a x (mid + 1) hi \<and> bisect_left_loop a x (mid + 1) hi \<le> hi
       \<and> (\<forall>i<bisect_left_loop a x (mid + 1) hi. a ! i < x)
       \<and> (\<forall>i. bisect_left_loop a x (mid + 1) hi \<le> i \<and> i < length a \<longrightarrow> x \<le> a ! i)"
        using "1.IH"(1)[OF True mid_def lt] "1.prems" mid below by auto
      moreover have "bisect_left_loop a x lo hi = bisect_left_loop a x (mid + 1) hi"
        using True lt by (subst bisect_left_loop.simps) (simp add: mid_def Let_def)
      ultimately show ?thesis by simp
    next
      case ge: False
      have above: "\<forall>i. mid \<le> i \<and> i < length a \<longrightarrow> x \<le> a ! i"
      proof (intro allI impI)
        fix i assume "mid \<le> i \<and> i < length a"
        then have "a ! mid \<le> a ! i"
          using \<open>sorted a\<close> by (auto simp: sorted_iff_nth_mono)
        with ge show "x \<le> a ! i" by simp
      qed
      have "lo \<le> bisect_left_loop a x lo mid \<and> bisect_left_loop a x lo mid \<le> mid
       \<and> (\<forall>i<bisect_left_loop a x lo mid. a ! i < x)
       \<and> (\<forall>i. bisect_left_loop a x lo mid \<le> i \<and> i < length a \<longrightarrow> x \<le> a ! i)"
        using "1.IH"(2)[OF True mid_def ge] "1.prems" mid above by auto
      moreover have "bisect_left_loop a x lo hi = bisect_left_loop a x lo mid"
        using True ge by (subst bisect_left_loop.simps) (simp add: mid_def Let_def)
      ultimately show ?thesis using mid by simp
    qed
  qed
qed

section \<open>Construction as the constructors are written\<close>

text \<open>
  \<open>bind\<close> passes the context of a successful call to the termination proofs below.
\<close>

lemma bind_cong [fundef_cong]:
  "m = m' \<Longrightarrow> (\<And>x. m' = Inr x \<Longrightarrow> f x = f' x) \<Longrightarrow> bind m f = bind m' f'"
  by (auto simp: bind_def split: sum.splits)

lemma bind_Inr [simp]: "bind (Inr x) f = f x"
  by (simp add: bind_def)

lemma bind_Inl [simp]: "bind (Inl e) f = Inl e"
  by (simp add: bind_def)

text \<open>
  A tree holds its minimum degree, its root and its size (\<^verbatim>\<open>__slots__\<close> of
  \<^verbatim>\<open>BTreeIndex\<close>).
\<close>

record ('k, 'v) btree_index =
  tree_min_degree :: int
  root :: "('k, 'v) node"
  tree_size :: int

text \<open>
  \<^verbatim>\<open>KeyValuePair.__init__\<close> and \<^verbatim>\<open>BTreeNode.__init__\<close> initialise their read-only slot
  with \<^verbatim>\<open>super.__setattr__(name, value)\<close>: \<^verbatim>\<open>super\<close> is not called, so the attribute
  is looked up on the type \<^verbatim>\<open>super\<close> and is the unbound slot wrapper
  \<^verbatim>\<open>object.__setattr__\<close>, which takes the receiver and two more arguments. Called
  with two positional arguments in all it raises TypeError. \<^verbatim>\<open>BTreeIndex.__init__\<close>
  writes \<^verbatim>\<open>super().__setattr__(name, value)\<close>, which succeeds, and then constructs
  the root node. \<open>unbound_setattr n\<close> is the call of the unbound wrapper with \<open>n\<close>
  positional arguments. A key is \<open>'k option\<close> here, with \<open>None\<close> for \<^verbatim>\<open>None\<close>.
\<close>

definition unbound_setattr :: "nat \<Rightarrow> error + unit" where
  "unbound_setattr nargs = (if nargs = 3 then Inr () else Inl TypeError)"

definition KeyValuePair_init :: "'k option \<Rightarrow> 'v option \<Rightarrow> error + ('k, 'v) key_value_pair" where
  "KeyValuePair_init k v =
     (case k of
        None \<Rightarrow> Inl ValueError
      | Some k' \<Rightarrow> bind (unbound_setattr 2) (\<lambda>_. Inr (KeyValuePair k' v)))"

definition BTreeNode_init :: "int \<Rightarrow> bool \<Rightarrow> error + ('k, 'v) node" where
  "BTreeNode_init t leaf =
     (if t < 2 then Inl ValueError
      else bind (unbound_setattr 2) (\<lambda>_. Inr (Node t leaf [] [])))"

definition BTreeIndex_init :: "int \<Rightarrow> error + ('k, 'v) btree_index" where
  "BTreeIndex_init t =
     (if t < 2 then Inl ValueError
      else bind (BTreeNode_init t True) (\<lambda>r.
             Inr \<lparr>tree_min_degree = t, root = r, tree_size = 0\<rparr>))"

lemma KeyValuePair_init_Some: "KeyValuePair_init (Some k) v = Inl TypeError"
  by (simp add: KeyValuePair_init_def unbound_setattr_def)

lemma BTreeNode_init_raises:
  "BTreeNode_init t leaf = Inl (if t < 2 then ValueError else TypeError)"
  by (simp add: BTreeNode_init_def unbound_setattr_def)

lemma BTreeIndex_init_raises:
  "BTreeIndex_init t = Inl (if t < 2 then ValueError else TypeError)"
  by (simp add: BTreeIndex_init_def BTreeNode_init_raises)

section \<open>Mutating a node\<close>

text \<open>
  \<open>py_set\<close> is the write-back of an object mutated through an alias: the element
  read with \<open>py_get xs i\<close> is replaced at the same index.

  \<^verbatim>\<open>insert_key_value\<close> begins with \<^verbatim>\<open>new_pair = KeyValuePair(key, value)\<close>: the call
  of the constructor of the entry, as it is written. The keys that the tree
  operations receive are not \<^verbatim>\<open>None\<close>, so the constructor is called with \<open>Some key\<close>.
  \<^verbatim>\<open>current.get_key_value_pair(i).value = value\<close> writes the mutable slot of an
  entry that exists already and calls no constructor: it is \<open>set_value\<close>.
\<close>

definition py_set :: "'a list \<Rightarrow> int \<Rightarrow> 'a \<Rightarrow> 'a list" where
  "py_set xs i x = xs[nat (if i < 0 then i + int (length xs) else i) := x]"

definition insert_key_value ::
  "('k::linorder, 'v) node \<Rightarrow> 'k \<Rightarrow> 'v option \<Rightarrow> error + ('k, 'v) node" where
  "insert_key_value n k v =
     bind (KeyValuePair_init (Some k) v) (\<lambda>new_pair.
       (let keys = keys_of n;
            insert_position = bisect_left keys k
        in Inr (Node (min_degree n) (is_leaf n)
                  (py_insert (key_value_pairs n) (int insert_position) new_pair)
                  (children n))))"

definition insert_child :: "('k, 'v) node \<Rightarrow> int \<Rightarrow> ('k, 'v) node \<Rightarrow> ('k, 'v) node" where
  "insert_child n i c =
     Node (min_degree n) (is_leaf n) (key_value_pairs n) (py_insert (children n) i c)"

definition remove_key_value_pair ::
  "('k, 'v) node \<Rightarrow> int \<Rightarrow> error + (('k, 'v) key_value_pair \<times> ('k, 'v) node)" where
  "remove_key_value_pair n i =
     bind (py_pop (key_value_pairs n) i)
       (\<lambda>(p, rest). Inr (p, Node (min_degree n) (is_leaf n) rest (children n)))"

definition remove_child ::
  "('k, 'v) node \<Rightarrow> int \<Rightarrow> error + (('k, 'v) node \<times> ('k, 'v) node)" where
  "remove_child n i =
     bind (py_pop (children n) i)
       (\<lambda>(c, rest). Inr (c, Node (min_degree n) (is_leaf n) (key_value_pairs n) rest))"

definition set_child :: "('k, 'v) node \<Rightarrow> int \<Rightarrow> ('k, 'v) node \<Rightarrow> ('k, 'v) node" where
  "set_child n i c =
     Node (min_degree n) (is_leaf n) (key_value_pairs n) (py_set (children n) i c)"

definition set_value :: "('k, 'v) node \<Rightarrow> int \<Rightarrow> 'v option \<Rightarrow> error + ('k, 'v) node" where
  "set_value n i v =
     bind (py_get (key_value_pairs n) i)
       (\<lambda>p. Inr (Node (min_degree n) (is_leaf n)
                     (py_set (key_value_pairs n) i (KeyValuePair (key p) v)) (children n)))"

lemma insert_key_value_raises: "insert_key_value n k v = Inl TypeError"
  by (simp add: insert_key_value_def KeyValuePair_init_Some)

section \<open>Splitting a full node\<close>

text \<open>
  \<open>node_count\<close> only measures a subtree, for the termination of the descents.
  \<open>move_pairs_loop src dst i\<close> is the loop
  \<^verbatim>\<open>while len(src) > i: p = src.remove_key_value_pair(i); dst.insert_key_value(p.key, p.value)\<close>
  and \<open>move_children_loop src dst i\<close> the loop
  \<^verbatim>\<open>while len(src.children) > i: dst.insert_child(len(dst.children), src.remove_child(i))\<close>;
  \<^verbatim>\<open>_split_node\<close> runs them at \<open>middle_index\<close> and \<open>middle_index + 1\<close>, the two
  merges at \<open>0\<close>.

  \<^verbatim>\<open>_split_node(current, parent)\<close> mutates \<open>current\<close>, which every caller has taken
  from the children of \<open>parent\<close>: \<open>split_node t parent i\<close> splits the child at index
  \<open>i\<close>, which stays where it is, and inserts the new right node where the source
  computes \<open>insertion_index\<close>. The new right node is the result of the call
  \<^verbatim>\<open>BTreeNode(self._min_degree, current.is_leaf)\<close>, made after the middle entry has
  been removed. \<open>split_node_no_parent\<close> is the branch \<^verbatim>\<open>parent is None\<close>, which no
  caller reaches.
\<close>

fun node_count :: "('k, 'v) node \<Rightarrow> nat" where
  "node_count (Node t leaf kvs cs) = Suc (sum_list (map node_count cs))"

lemma py_pop_length:
  "py_pop xs i = Inr (x, rest) \<Longrightarrow> Suc (length rest) = length xs"
  by (auto simp: py_pop_def Let_def split: if_splits)

function move_pairs_loop ::
  "('k::linorder, 'v) node \<Rightarrow> ('k, 'v) node \<Rightarrow> int \<Rightarrow> error + (('k, 'v) node \<times> ('k, 'v) node)" where
  "move_pairs_loop src dst i =
     (if len src > i
      then bind (remove_key_value_pair src i) (\<lambda>(p, src').
           bind (insert_key_value dst (key p) (val p)) (\<lambda>dst'.
             move_pairs_loop src' dst' i))
      else Inr (src, dst))"
  by pat_completeness auto
termination
  by (relation "measure (\<lambda>(src, dst, i). length (key_value_pairs src))")
     (auto simp: remove_key_value_pair_def bind_def split: sum.splits dest!: py_pop_length)

function move_children_loop ::
  "('k, 'v) node \<Rightarrow> ('k, 'v) node \<Rightarrow> int \<Rightarrow> error + (('k, 'v) node \<times> ('k, 'v) node)" where
  "move_children_loop src dst i =
     (if int (length (children src)) > i
      then bind (remove_child src i)
             (\<lambda>(child, src').
                move_children_loop src' (insert_child dst (int (length (children dst))) child) i)
      else Inr (src, dst))"
  by pat_completeness auto
termination
  by (relation "measure (\<lambda>(src, dst, i). length (children src))")
     (auto simp: remove_child_def bind_def split: sum.splits dest!: py_pop_length)

declare move_pairs_loop.simps [simp del] move_children_loop.simps [simp del]

definition split_parts ::
  "int \<Rightarrow> ('k::linorder, 'v) node
     \<Rightarrow> error + (('k, 'v) key_value_pair \<times> ('k, 'v) node \<times> ('k, 'v) node)" where
  "split_parts t current =
     (let middle_index = t - 1
      in bind (remove_key_value_pair current middle_index) (\<lambda>(middle_kv_pair, current1).
         bind (BTreeNode_init t (is_leaf current1)) (\<lambda>right.
         bind (move_pairs_loop current1 right middle_index) (\<lambda>(current2, right1).
         bind (if \<not> is_leaf current2
               then move_children_loop current2 right1 (middle_index + 1)
               else Inr (current2, right1)) (\<lambda>(current3, right2).
         Inr (middle_kv_pair, current3, right2))))))"

definition split_node ::
  "int \<Rightarrow> ('k::linorder, 'v) node \<Rightarrow> int \<Rightarrow> error + ('k, 'v) node" where
  "split_node t parent i =
     bind (get_child parent i) (\<lambda>current.
     bind (split_parts t current) (\<lambda>(middle_kv_pair, current', right).
     bind (insert_key_value (set_child parent i current')
             (key middle_kv_pair) (val middle_kv_pair)) (\<lambda>parent2.
       (let insertion_index = find_key_index parent2 (key middle_kv_pair) + 1
        in Inr (insert_child parent2 insertion_index right)))))"

definition split_node_no_parent ::
  "int \<Rightarrow> ('k::linorder, 'v) node \<Rightarrow> error + ('k, 'v) node" where
  "split_node_no_parent t current =
     bind (split_parts t current) (\<lambda>(middle_kv_pair, current', right).
     bind (BTreeNode_init t False) (\<lambda>split_root.
     bind (insert_key_value split_root (key middle_kv_pair) (val middle_kv_pair))
       (\<lambda>split_root1.
         Inr (insert_child (insert_child split_root1 0 current') 1 right))))"

lemma node_count_children: "node_count n = Suc (sum_list (map node_count (children n)))"
  by (cases n) simp

lemma py_get_mem: "py_get xs i = Inr x \<Longrightarrow> x \<in> set xs"
  by (auto simp: py_get_def Let_def split: if_splits)

lemma node_count_child_less: "c \<in> set (children n) \<Longrightarrow> node_count c < node_count n"
proof -
  assume "c \<in> set (children n)"
  then have "node_count c \<le> sum_list (map node_count (children n))"
    by (simp add: member_le_sum_list)
  then show ?thesis by (simp add: node_count_children)
qed

lemma get_child_less: "get_child n i = Inr c \<Longrightarrow> node_count c < node_count n"
  by (auto simp: get_child_def dest!: py_get_mem intro: node_count_child_less)

text \<open>
  As the constructor of the node is written, no split returns: the call of
  \<^verbatim>\<open>BTreeNode\<close> that follows the removal of the middle entry raises.
\<close>

lemma split_parts_raises: "split_parts t current \<noteq> Inr x"
  by (auto simp: split_parts_def Let_def bind_def BTreeNode_init_raises split: sum.splits)

lemma split_node_raises: "split_node t parent i \<noteq> Inr x"
proof
  assume "split_node t parent i = Inr x"
  then obtain current y where "get_child parent i = Inr current" "split_parts t current = Inr y"
    by (auto simp: split_node_def bind_def split: sum.splits)
  then show False using split_parts_raises by blast
qed

section \<open>Insertion\<close>

text \<open>
  \<open>descend_target\<close> is the \<^verbatim>\<open>else\<close> branch of the loop of \<^verbatim>\<open>insert\<close>: the child
  to descend into, split first when it is full and looked up again after the split.
  \<open>insert_loop\<close> is the loop itself, with \<^verbatim>\<open>self._size\<close> passed in and returned.
\<close>

definition descend_target ::
  "int \<Rightarrow> ('k::linorder, 'v) node \<Rightarrow> 'k
     \<Rightarrow> error + (('k, 'v) node \<times> int \<times> ('k, 'v) node)" where
  "descend_target t current k =
     (let child_index = get_child_index current k
      in bind (get_child current child_index) (\<lambda>child.
           if is_full child
           then bind (split_node t current child_index) (\<lambda>current'.
                  bind (get_child current' (get_child_index current' k)) (\<lambda>child'.
                    Inr (current', get_child_index current' k, child')))
           else Inr (current, child_index, child)))"

lemma descend_target_returns:
  assumes "descend_target t current k = Inr (current', ci, c)"
  shows "current' = current" and "ci = get_child_index current k"
    and "get_child current (get_child_index current k) = Inr c" and "\<not> is_full c"
proof -
  from assms obtain child where
    g: "get_child current (get_child_index current k) = Inr child" and
    r: "(if is_full child
         then bind (split_node t current (get_child_index current k)) (\<lambda>current'.
                bind (get_child current' (get_child_index current' k)) (\<lambda>child'.
                  Inr (current', get_child_index current' k, child')))
         else Inr (current, get_child_index current k, child)) = Inr (current', ci, c)"
    by (auto simp: descend_target_def Let_def bind_def split: sum.splits)
  have nf: "\<not> is_full child"
  proof
    assume "is_full child"
    with r obtain p where "split_node t current (get_child_index current k) = Inr p"
      by (auto simp: bind_def split: sum.splits)
    then show False using split_node_raises by blast
  qed
  with r g show "current' = current" and "ci = get_child_index current k"
    and "get_child current (get_child_index current k) = Inr c" and "\<not> is_full c"
    by auto
qed

lemma descend_target_less:
  assumes "descend_target t current k = Inr (current', ci, c)"
  shows "node_count c < node_count current"
  using descend_target_returns(3)[OF assms] by (rule get_child_less)

function insert_loop ::
  "int \<Rightarrow> int \<Rightarrow> ('k::linorder, 'v) node \<Rightarrow> 'k \<Rightarrow> 'v option
     \<Rightarrow> error + (('k, 'v) node \<times> int \<times> 'v option)" where
  "insert_loop t sz current k v =
     (let key_index = find_key_index current k
      in if key_index \<ge> 0
         then bind (get_value current key_index) (\<lambda>old_value.
              bind (set_value current key_index v) (\<lambda>current'.
                Inr (current', sz, old_value)))
         else if is_leaf current
         then bind (insert_key_value current k v) (\<lambda>current'.
                Inr (current', sz + 1, None))
         else bind (descend_target t current k) (\<lambda>(current', child_index, child).
              bind (insert_loop t sz child k v) (\<lambda>(child', sz', result).
                Inr (set_child current' child_index child', sz', result))))"
  by pat_completeness auto
termination
  by (relation "measure (\<lambda>(t, sz, current, k, v). node_count current)")
     (auto dest: descend_target_less)

declare insert_loop.simps [simp del]

section \<open>The tree: search and insert\<close>

function search_loop :: "('k::linorder, 'v) node \<Rightarrow> 'k \<Rightarrow> error + 'v option" where
  "search_loop current k =
     (let index = find_key_index current k
      in if index \<ge> 0 then get_value current index
         else if is_leaf current then Inr None
         else bind (get_child current (get_child_index current k)) (\<lambda>child.
                search_loop child k))"
  by pat_completeness auto
termination
  by (relation "measure (\<lambda>(current, k). node_count current)")
     (auto dest: get_child_less)

declare search_loop.simps [simp del]

definition is_empty :: "('k, 'v) btree_index \<Rightarrow> bool" where
  "is_empty T \<longleftrightarrow> tree_size T = 0"

definition search :: "('k::linorder, 'v) btree_index \<Rightarrow> 'k \<Rightarrow> error + 'v option" where
  "search T k = (if is_empty T then Inr None else search_loop (root T) k)"


text \<open>
  \<^verbatim>\<open>insert\<close>: on an empty tree the entry goes into the root; a full root is first put
  under the result of the call \<^verbatim>\<open>BTreeNode(self._min_degree, False)\<close> and split;
  then the loop runs from the root.
\<close>

definition insert_btree ::
  "('k::linorder, 'v) btree_index \<Rightarrow> 'k \<Rightarrow> 'v option
     \<Rightarrow> error + (('k, 'v) btree_index \<times> 'v option)" where
  "insert_btree T k v =
     (if is_empty T
      then bind (insert_key_value (root T) k v) (\<lambda>root1.
             Inr (T\<lparr>root := root1, tree_size := tree_size T + 1\<rparr>, None))
      else bind (if is_full (root T)
                 then bind (BTreeNode_init (tree_min_degree T) False) (\<lambda>new_root.
                        split_node (tree_min_degree T) (insert_child new_root 0 (root T)) 0)
                 else Inr (root T)) (\<lambda>root1.
           bind (insert_loop (tree_min_degree T) (tree_size T) root1 k v)
             (\<lambda>(root2, sz, result). Inr (T\<lparr>root := root2, tree_size := sz\<rparr>, result))))"

section \<open>Deletion and underflow repair\<close>

text \<open>
  The borrow and merge functions receive \<open>node\<close>, which the caller has read as
  \<^verbatim>\<open>parent.get_child(node_index)\<close>; the model reads it again from the parent. They
  are called with \<open>0 < node_index\<close> (left variants) and
  \<open>0 \<le> node_index < len(parent.children)\<close>, so the node and its sibling are
  different children of the parent. Every entry that moves between nodes is stored
  with \<^verbatim>\<open>insert_key_value\<close>, which constructs a new entry.
\<close>

definition cannot_safely_merge :: "int \<Rightarrow> ('k, 'v) node \<Rightarrow> ('k, 'v) node \<Rightarrow> bool" where
  "cannot_safely_merge t node1 node2 =
     (let total_keys = len node1 + 1 + len node2 in total_keys > 2 * t - 1)"

definition borrow_from_left_sibling ::
  "('k::linorder, 'v) node \<Rightarrow> int \<Rightarrow> error + ('k, 'v) node" where
  "borrow_from_left_sibling parent node_index =
     bind (get_child parent node_index) (\<lambda>node.
     bind (get_child parent (node_index - 1)) (\<lambda>left_sibling.
     bind (remove_key_value_pair parent (node_index - 1)) (\<lambda>(separator, parent1).
     bind (remove_key_value_pair left_sibling (len left_sibling - 1))
       (\<lambda>(borrowed_key, left1).
     bind (insert_key_value parent1 (key borrowed_key) (val borrowed_key)) (\<lambda>parent2.
     bind (insert_key_value node (key separator) (val separator)) (\<lambda>node1.
     bind (if \<not> is_leaf node1
           then bind (remove_child left1 (int (length (children left1)) - 1))
                  (\<lambda>(removed_child, left2). Inr (left2, insert_child node1 0 removed_child))
           else Inr (left1, node1)) (\<lambda>(left3, node2).
       Inr (set_child (set_child parent2 (node_index - 1) left3) node_index node2))))))))"

definition borrow_from_right_sibling ::
  "('k::linorder, 'v) node \<Rightarrow> int \<Rightarrow> error + ('k, 'v) node" where
  "borrow_from_right_sibling parent node_index =
     bind (get_child parent node_index) (\<lambda>node.
     bind (get_child parent (node_index + 1)) (\<lambda>right_sibling.
     bind (remove_key_value_pair parent node_index) (\<lambda>(separator, parent1).
     bind (remove_key_value_pair right_sibling 0) (\<lambda>(borrowed_key, right1).
     bind (insert_key_value parent1 (key borrowed_key) (val borrowed_key)) (\<lambda>parent2.
     bind (insert_key_value node (key separator) (val separator)) (\<lambda>node1.
     bind (if \<not> is_leaf node1
           then bind (remove_child right1 0)
                  (\<lambda>(removed_child, right2).
                     Inr (right2, insert_child node1 (int (length (children node1)))
                                    removed_child))
           else Inr (right1, node1)) (\<lambda>(right3, node2).
       Inr (set_child (set_child parent2 (node_index + 1) right3) node_index node2))))))))"

definition merge_with_left_sibling ::
  "int \<Rightarrow> ('k::linorder, 'v) node \<Rightarrow> int \<Rightarrow> error + ('k, 'v) node" where
  "merge_with_left_sibling t parent node_index =
     (if node_index \<le> 0 \<or> node_index - 1 \<ge> len parent then Inr parent
      else bind (get_child parent node_index) (\<lambda>node.
           bind (get_child parent (node_index - 1)) (\<lambda>left_sibling.
           if cannot_safely_merge t left_sibling node \<and> len left_sibling > t - 1
           then borrow_from_left_sibling parent node_index
           else bind (if node_index - 1 < len parent
                      then bind (remove_key_value_pair parent (node_index - 1))
                             (\<lambda>(separator, parent1).
                           bind (insert_key_value left_sibling
                                   (key separator) (val separator)) (\<lambda>left1.
                             Inr (parent1, left1)))
                      else Inr (parent, left_sibling)) (\<lambda>(parent1, left1).
                bind (move_pairs_loop node left1 0) (\<lambda>(node1, left2).
                bind (if \<not> is_leaf node1 then move_children_loop node1 left2 0
                      else Inr (node1, left2)) (\<lambda>(node2, left3).
                (let parent2 = set_child (set_child parent1 (node_index - 1) left3)
                                 node_index node2
                 in if node_index < int (length (children parent2))
                    then bind (remove_child parent2 node_index) (\<lambda>(_, parent3). Inr parent3)
                    else Inr parent2)))))))"

definition merge_with_right_sibling ::
  "int \<Rightarrow> ('k::linorder, 'v) node \<Rightarrow> int \<Rightarrow> error + ('k, 'v) node" where
  "merge_with_right_sibling t parent node_index =
     (if node_index \<ge> int (length (children parent)) - 1 \<or> node_index \<ge> len parent
      then Inr parent
      else bind (get_child parent node_index) (\<lambda>node.
           bind (get_child parent (node_index + 1)) (\<lambda>right_sibling.
           if cannot_safely_merge t node right_sibling \<and> len right_sibling > t - 1
           then borrow_from_right_sibling parent node_index
           else bind (if node_index < len parent
                      then bind (remove_key_value_pair parent node_index)
                             (\<lambda>(separator, parent1).
                           bind (insert_key_value node
                                   (key separator) (val separator)) (\<lambda>node1.
                             Inr (parent1, node1)))
                      else Inr (parent, node)) (\<lambda>(parent1, node1).
                bind (move_pairs_loop right_sibling node1 0) (\<lambda>(right1, node2).
                bind (if \<not> is_leaf node2 then move_children_loop right1 node2 0
                      else Inr (right1, node2)) (\<lambda>(right2, node3).
                (let parent2 = set_child (set_child parent1 (node_index + 1) right2)
                                 node_index node3
                 in if node_index + 1 < int (length (children parent2))
                    then bind (remove_child parent2 (node_index + 1))
                           (\<lambda>(_, parent3). Inr parent3)
                    else Inr parent2)))))))"

text \<open>
  \<^verbatim>\<open>_fix_underflow\<close> is a chain of tests, each ending in one call followed by
  \<^verbatim>\<open>return\<close>. \<open>fix_underflow_choice\<close> is that chain, returning which call is made;
  \<open>fix_underflow\<close> makes it.
\<close>

datatype repair = NoRepair | BorrowLeft | BorrowRight | MergeLeft | MergeRight

definition fix_underflow_choice ::
  "int \<Rightarrow> ('k, 'v) node \<Rightarrow> int \<Rightarrow> error + repair" where
  "fix_underflow_choice t parent child_index =
     (if child_index \<ge> int (length (children parent)) \<or> len parent = 0 then Inr NoRepair
      else bind (get_child parent child_index) (\<lambda>child.
           if len child \<ge> t - 1 then Inr NoRepair
           else bind (if child_index > 0
                      then bind (get_child parent (child_index - 1)) (\<lambda>left_sibling.
                             Inr (len left_sibling > t - 1))
                      else Inr False) (\<lambda>borrow_left.
                if borrow_left then Inr BorrowLeft
                else bind (if child_index < int (length (children parent)) - 1
                           then bind (get_child parent (child_index + 1)) (\<lambda>right_sibling.
                                  Inr (len right_sibling > t - 1))
                           else Inr False) (\<lambda>borrow_right.
                     if borrow_right then Inr BorrowRight
                     else if child_index > 0 \<and> len parent > child_index - 1
                     then Inr MergeLeft
                     else if child_index < int (length (children parent)) - 1
                             \<and> len parent > child_index
                     then Inr MergeRight
                     else Inr NoRepair))))"

definition fix_underflow ::
  "int \<Rightarrow> ('k::linorder, 'v) node \<Rightarrow> int \<Rightarrow> error + ('k, 'v) node" where
  "fix_underflow t parent child_index =
     bind (fix_underflow_choice t parent child_index) (\<lambda>choice.
       case choice of
         NoRepair \<Rightarrow> Inr parent
       | BorrowLeft \<Rightarrow> borrow_from_left_sibling parent child_index
       | BorrowRight \<Rightarrow> borrow_from_right_sibling parent child_index
       | MergeLeft \<Rightarrow> merge_with_left_sibling t parent child_index
       | MergeRight \<Rightarrow> merge_with_right_sibling t parent child_index)"

function successor_descent :: "('k, 'v) node \<Rightarrow> error + ('k, 'v) node" where
  "successor_descent successor_node =
     (if \<not> is_leaf successor_node
      then (if length (children successor_node) = 0 then Inr successor_node
            else bind (get_child successor_node 0) successor_descent)
      else Inr successor_node)"
  by pat_completeness auto
termination
  by (relation "measure node_count") (auto dest: get_child_less)

function predecessor_descent :: "('k, 'v) node \<Rightarrow> error + ('k, 'v) node" where
  "predecessor_descent predecessor_node =
     (if \<not> is_leaf predecessor_node
      then (if length (children predecessor_node) = 0 then Inr predecessor_node
            else bind (get_child predecessor_node
                         (int (length (children predecessor_node)) - 1))
                   predecessor_descent)
      else Inr predecessor_node)"
  by pat_completeness auto
termination
  by (relation "measure node_count") (auto dest: get_child_less)

declare successor_descent.simps [simp del] predecessor_descent.simps [simp del]

text \<open>
  \<open>repair_child\<close> is the test that follows each recursive call of
  \<^verbatim>\<open>_delete_from_node\<close>: if the index is within the children and that child has
  fewer than \<open>t - 1\<close> entries, \<^verbatim>\<open>_fix_underflow\<close> is called.
\<close>

definition repair_child ::
  "int \<Rightarrow> ('k::linorder, 'v) node \<Rightarrow> int \<Rightarrow> error + ('k, 'v) node" where
  "repair_child t current child_index =
     (if child_index < int (length (children current))
      then bind (get_child current child_index) (\<lambda>child.
             if len child < t - 1 then fix_underflow t current child_index
             else Inr current)
      else Inr current)"

lemma children_remove_key_value_pair:
  "remove_key_value_pair n i = Inr (p, n') \<Longrightarrow> children n' = children n"
  by (auto simp: remove_key_value_pair_def bind_def split: sum.splits)

lemma children_insert_key_value:
  "insert_key_value n k v = Inr n' \<Longrightarrow> children n' = children n"
  by (auto simp: insert_key_value_def Let_def bind_def split: sum.splits)

function delete_from_node ::
  "int \<Rightarrow> int \<Rightarrow> ('k::linorder, 'v) node \<Rightarrow> 'k
     \<Rightarrow> error + (('k, 'v) node \<times> int \<times> 'v option)" where
  "delete_from_node t sz current k =
     (let key_index = find_key_index current k
      in if key_index \<ge> 0
         then (if is_leaf current
               then bind (remove_key_value_pair current key_index) (\<lambda>(removed, current1).
                      Inr (current1, sz - 1, val removed))
               else bind (get_value current key_index) (\<lambda>original_value.
                    bind (get_child current (key_index + 1)) (\<lambda>successor_start.
                    bind (successor_descent successor_start) (\<lambda>successor_node.
                    if len successor_node > 0
                    then bind (get_key successor_node 0) (\<lambda>successor_key.
                         bind (get_value successor_node 0) (\<lambda>successor_value.
                         bind (remove_key_value_pair current key_index) (\<lambda>(_, current1).
                         bind (insert_key_value current1 successor_key successor_value)
                           (\<lambda>current2.
                         bind (get_child current2 (key_index + 1)) (\<lambda>child.
                         bind (delete_from_node t sz child successor_key)
                           (\<lambda>(child1, sz1, _).
                         bind (repair_child t (set_child current2 (key_index + 1) child1)
                                 (key_index + 1)) (\<lambda>current3.
                           Inr (current3, sz1, original_value))))))))
                    else bind (get_child current key_index) (\<lambda>predecessor_start.
                         bind (predecessor_descent predecessor_start) (\<lambda>predecessor_node.
                         if len predecessor_node > 0
                         then bind (get_key predecessor_node (len predecessor_node - 1))
                                (\<lambda>pred_key.
                              bind (get_value predecessor_node (len predecessor_node - 1))
                                (\<lambda>pred_value.
                              bind (remove_key_value_pair current key_index)
                                (\<lambda>(_, current1).
                              bind (insert_key_value current1 pred_key pred_value)
                                (\<lambda>current2.
                              bind (get_child current2 key_index) (\<lambda>child.
                              bind (delete_from_node t sz child pred_key)
                                (\<lambda>(child1, sz1, _).
                              bind (repair_child t (set_child current2 key_index child1)
                                      key_index) (\<lambda>current3.
                                Inr (current3, sz1, original_value))))))))
                         else bind (remove_key_value_pair current key_index)
                                (\<lambda>(_, current1).
                                   Inr (current1, sz - 1, original_value))))))))
         else if \<not> is_leaf current
         then (let child_index = get_child_index current k
               in bind (get_child current child_index) (\<lambda>child.
                  bind (delete_from_node t sz child k) (\<lambda>(child1, sz1, result).
                  bind (repair_child t (set_child current child_index child1) child_index)
                    (\<lambda>current2. Inr (current2, sz1, result)))))
         else Inr (current, sz, None))"
  by pat_completeness auto
termination
  by (relation "measure (\<lambda>(t, sz, current, k). node_count current)")
     (auto simp: get_child_def
           dest!: py_get_mem children_remove_key_value_pair children_insert_key_value
           intro: node_count_child_less)

declare delete_from_node.simps [simp del]

definition delete ::
  "('k::linorder, 'v) btree_index \<Rightarrow> 'k \<Rightarrow> error + (('k, 'v) btree_index \<times> 'v option)" where
  "delete T k =
     (if is_empty T then Inr (T, None)
      else bind (delete_from_node (tree_min_degree T) (tree_size T) (root T) k)
             (\<lambda>(root1, sz, result).
           bind (if len root1 = 0 \<and> \<not> is_leaf root1 then get_child root1 0 else Inr root1)
             (\<lambda>root2. Inr (T\<lparr>root := root2, tree_size := sz\<rparr>, result))))"


section \<open>The setter of \<^verbatim>\<open>is_leaf\<close>\<close>

text \<open>
  \<^verbatim>\<open>@is_leaf.setter def is_leaf(self, value): self.is_leaf = value\<close> assigns to the
  property, which calls the setter again. \<open>is_leaf_setter\<close> is the call as a partial
  function: \<open>None\<close> means that it does not return a node. \<open>is_leaf_setter_depth d\<close> is
  the same call with \<open>d\<close> frames left before the interpreter's recursion limit.
\<close>

partial_function (option) is_leaf_setter :: "('k, 'v) node \<Rightarrow> bool \<Rightarrow> ('k, 'v) node option" where
  "is_leaf_setter n v = is_leaf_setter n v"

fun is_leaf_setter_depth :: "nat \<Rightarrow> ('k, 'v) node \<Rightarrow> bool \<Rightarrow> error + ('k, 'v) node" where
  "is_leaf_setter_depth 0 n v = Inl RecursionError"
| "is_leaf_setter_depth (Suc d) n v = is_leaf_setter_depth d n v"


lemma setter_none: "is_leaf_setter n v = None"
proof (cases "is_leaf_setter n v")
  case None then show ?thesis .
next
  case (Some y)
  have "False"
    by (rule is_leaf_setter.raw_induct[where P = "\<lambda>_ _ _. False", OF _ Some]) blast
  then show ?thesis ..
qed

lemma setter_depth: "is_leaf_setter_depth d n v = Inl RecursionError"
  by (induction d) simp_all

section \<open>Sequences of public operations and the invariants\<close>

text \<open>
  \<open>run\<close> applies a sequence of inserts and deletes to a tree and stops at the first
  exception. A sequence on a fresh tree begins with the call of the constructor,
  \<open>BTreeIndex_init\<close>.
\<close>

datatype ('k, 'v) operation = Insert 'k "'v option" | Delete 'k

fun apply_operation ::
  "('k::linorder, 'v) btree_index \<Rightarrow> ('k, 'v) operation \<Rightarrow> error + ('k, 'v) btree_index" where
  "apply_operation T (Insert k v) = bind (insert_btree T k v) (\<lambda>(T', _). Inr T')"
| "apply_operation T (Delete k) = bind (delete T k) (\<lambda>(T', _). Inr T')"

fun run :: "('k::linorder, 'v) btree_index \<Rightarrow> ('k, 'v) operation list
              \<Rightarrow> error + ('k, 'v) btree_index" where
  "run T [] = Inr T"
| "run T (x # xs) = bind (apply_operation T x) (\<lambda>T'. run T' xs)"

text \<open>
  The six invariants of the data model, as a checker that walks from the root: keys
  strictly increasing within each node, one more child than entries in every non-leaf,
  every key of a subtree strictly between its two separators and no key twice in the
  tree, between \<open>t - 1\<close> and \<open>2t - 1\<close> entries in every node but the root (at most
  \<open>2t - 1\<close> in the root), all leaves at one depth, and the size equal to the number
  of entries.
\<close>

fun subtree_keys :: "('k, 'v) node \<Rightarrow> 'k list" where
  "subtree_keys (Node t leaf kvs cs) = map key kvs @ concat (map subtree_keys cs)"

fun entry_count :: "('k, 'v) node \<Rightarrow> nat" where
  "entry_count (Node t leaf kvs cs) = length kvs + sum_list (map entry_count cs)"

fun leaf_depths :: "('k, 'v) node \<Rightarrow> nat list" where
  "leaf_depths (Node t leaf kvs cs) =
     (if leaf then [0] else map Suc (concat (map leaf_depths cs)))"

fun keys_increasing :: "('k::linorder, 'v) node \<Rightarrow> bool" where
  "keys_increasing (Node t leaf kvs cs) \<longleftrightarrow>
     sorted_wrt (<) (map key kvs) \<and> list_all keys_increasing cs"

fun children_counted :: "('k, 'v) node \<Rightarrow> bool" where
  "children_counted (Node t leaf kvs cs) \<longleftrightarrow>
     (leaf \<or> length cs = length kvs + 1) \<and> list_all children_counted cs"

fun separators_ordered :: "('k::linorder, 'v) node \<Rightarrow> bool" where
  "separators_ordered (Node t leaf kvs cs) \<longleftrightarrow>
     (leaf \<or>
       list_all (\<lambda>i.
          (if 0 < i \<and> i - 1 < length kvs
           then list_all (\<lambda>k. key (kvs ! (i - 1)) < k) (subtree_keys (cs ! i)) else True)
        \<and> (if i < length kvs
           then list_all (\<lambda>k. k < key (kvs ! i)) (subtree_keys (cs ! i)) else True))
         [0..<length cs])
     \<and> list_all separators_ordered cs"

fun occupancy :: "int \<Rightarrow> bool \<Rightarrow> ('k, 'v) node \<Rightarrow> bool" where
  "occupancy t is_root (Node t' leaf kvs cs) \<longleftrightarrow>
     (is_root \<or> t - 1 \<le> int (length kvs)) \<and> int (length kvs) \<le> 2 * t - 1
     \<and> list_all (occupancy t False) cs"

definition leaves_level :: "('k, 'v) node \<Rightarrow> bool" where
  "leaves_level n \<longleftrightarrow> list_all (\<lambda>d. d = hd (leaf_depths n)) (leaf_depths n)"

definition btree_invariants :: "('k::linorder, 'v) btree_index \<Rightarrow> bool" where
  "btree_invariants T \<longleftrightarrow>
     keys_increasing (root T) \<and> children_counted (root T) \<and> separators_ordered (root T)
     \<and> distinct (subtree_keys (root T))
     \<and> occupancy (tree_min_degree T) True (root T) \<and> leaves_level (root T)
     \<and> tree_size T = int (entry_count (root T))"


section \<open>Facts about the list operations and the binary search\<close>

lemma py_get_nat: "0 \<le> i \<Longrightarrow> i < int (length xs) \<Longrightarrow> py_get xs i = Inr (xs ! nat i)"
  by (simp add: py_get_def Let_def)

lemma bisect_left_spec:
  assumes "sorted a"
  shows "bisect_left a x \<le> length a"
    and "\<forall>i<bisect_left a x. a ! i < x"
    and "\<forall>i. bisect_left a x \<le> i \<and> i < length a \<longrightarrow> x \<le> a ! i"
proof -
  have p1: "\<forall>i<0::nat. a ! i < x" by simp
  have p2: "\<forall>i. length a \<le> i \<and> i < length a \<longrightarrow> x \<le> a ! i" by auto
  note r = bisect_left_loop_spec[OF assms le0 le_refl p1 p2]
  show "bisect_left a x \<le> length a"
    and "\<forall>i<bisect_left a x. a ! i < x"
    and "\<forall>i. bisect_left a x \<le> i \<and> i < length a \<longrightarrow> x \<le> a ! i"
    using r by (simp_all add: bisect_left_def)
qed

lemma bisect_left_count:
  assumes "sorted a"
  shows "bisect_left a x = length (filter (\<lambda>y. y < x) a)"
proof -
  define r where "r = bisect_left a x"
  have spec: "r \<le> length a" "\<forall>i<r. a ! i < x" "\<forall>i. r \<le> i \<and> i < length a \<longrightarrow> x \<le> a ! i"
    using bisect_left_spec[OF assms, of x] by (simp_all add: r_def)
  have "filter (\<lambda>y. y < x) (take r a) = take r a"
    using spec by (auto simp: filter_id_conv in_set_conv_nth)
  moreover have "filter (\<lambda>y. y < x) (drop r a) = []"
  proof -
    have "\<not> y < x" if "y \<in> set (drop r a)" for y
    proof -
      from that obtain j where j: "j < length (drop r a)" "y = drop r a ! j"
        by (auto simp: in_set_conv_nth)
      then have "x \<le> a ! (r + j)" using spec(3) by auto
      with j spec(1) show ?thesis by simp
    qed
    then show ?thesis by (auto simp: filter_empty_conv)
  qed
  ultimately have "filter (\<lambda>y. y < x) (take r a) @ filter (\<lambda>y. y < x) (drop r a) = take r a"
    by simp
  then have "filter (\<lambda>y. y < x) (take r a @ drop r a) = take r a"
    by (simp only: filter_append)
  then have "length (filter (\<lambda>y. y < x) a) = r"
    using spec(1) by simp
  then show ?thesis by (simp add: r_def)
qed

lemma bisect_left_nth:
  assumes "sorted a" "i < length a" "a ! i = x" "distinct a"
  shows "bisect_left a x = i"
proof -
  define r where "r = bisect_left a x"
  have spec: "r \<le> length a" "\<forall>i<r. a ! i < x" "\<forall>i. r \<le> i \<and> i < length a \<longrightarrow> x \<le> a ! i"
    using bisect_left_spec[OF assms(1), of x] by (simp_all add: r_def)
  have "\<not> i < r" using spec(2) assms(3) by auto
  moreover have "\<not> r < i"
  proof
    assume "r < i"
    then have "x \<le> a ! r" using spec(3) assms(2) by auto
    moreover have "a ! r \<le> a ! i" using assms \<open>r < i\<close> by (auto simp: sorted_iff_nth_mono)
    ultimately have "a ! r = a ! i" using assms(3) by simp
    then show False using assms \<open>r < i\<close> by (auto simp: distinct_conv_nth)
  qed
  ultimately show ?thesis by (simp add: r_def)
qed






lemma children_set_child:
  "0 \<le> j \<Longrightarrow> children (set_child n j c) = (children n)[nat j := c]"
  by (simp add: set_child_def py_set_def)

lemma key_value_pairs_set_child [simp]:
  "key_value_pairs (set_child n j c) = key_value_pairs n"
  by (simp add: set_child_def)

lemma len_set_child [simp]: "len (set_child n j c) = len n"
  by (simp add: len_def)

lemma len_nonneg [simp]: "0 \<le> len n"
  by (simp add: len_def)

lemma choice_MergeLeft:
  assumes "0 \<le> i" and "fix_underflow_choice t parent i = Inr MergeLeft"
  shows "0 < i" and "i < int (length (children parent))" and "i - 1 < len parent"
    and "len (children parent ! nat i) < t - 1"
    and "len (children parent ! nat (i - 1)) \<le> t - 1"
  using assms
  by (auto simp: fix_underflow_choice_def get_child_def py_get_def Let_def bind_def
           split: if_splits sum.splits)

lemma choice_MergeRight:
  assumes "0 \<le> i" and "fix_underflow_choice t parent i = Inr MergeRight"
  shows "i < int (length (children parent)) - 1" and "i < len parent"
    and "len (children parent ! nat i) < t - 1"
    and "len (children parent ! nat (i + 1)) \<le> t - 1"
  using assms
  by (auto simp: fix_underflow_choice_def get_child_def py_get_def Let_def bind_def
           split: if_splits sum.splits)

section \<open>An insert that returns\<close>










section \<open>The claims\<close>

subsection \<open>C5: key lookup within a node\<close>

text \<open>
  C5. In a node whose keys are strictly increasing, \<open>find_key_index\<close> returns the
  index of the key when the node holds it, and otherwise \<open>-(p + 1)\<close>, where the
  insertion point \<open>p\<close> is the number of entries with a smaller key (so \<open>-1\<close> on an
  empty node); \<open>get_child_index\<close> returns the index of the key plus one when the node
  holds it and the insertion point otherwise.
\<close>

theorem find_key_index_sorted:
  assumes "sorted_wrt (<) (keys_of n)"
  shows "(k \<in> set (keys_of n) \<longrightarrow>
           (\<exists>i<length (keys_of n). keys_of n ! i = k \<and> find_key_index n k = int i
              \<and> get_child_index n k = int i + 1))
       \<and> (k \<notin> set (keys_of n) \<longrightarrow>
           find_key_index n k = - (int (length (filter (\<lambda>x. x < k) (keys_of n))) + 1)
           \<and> get_child_index n k = int (length (filter (\<lambda>x. x < k) (keys_of n))))"
proof -
  have s: "sorted (keys_of n)" and d: "distinct (keys_of n)"
    using assms by (simp_all add: strict_sorted_iff)
  show ?thesis
  proof (intro conjI impI)
    assume "k \<in> set (keys_of n)"
    then obtain i where i: "i < length (keys_of n)" "keys_of n ! i = k"
      by (auto simp: in_set_conv_nth)
    have b: "bisect_left (keys_of n) k = i" using bisect_left_nth[OF s i d] .
    have ne: "key_value_pairs n \<noteq> []" using i by (auto simp: keys_of_def)
    have "find_key_index n k = int i"
      using b i ne by (simp add: find_key_index_def Let_def)
    then show "\<exists>i<length (keys_of n). keys_of n ! i = k \<and> find_key_index n k = int i
              \<and> get_child_index n k = int i + 1"
      using i by (auto simp: get_child_index_def Let_def)
  next
    assume nin: "k \<notin> set (keys_of n)"
    have b: "bisect_left (keys_of n) k = length (filter (\<lambda>x. x < k) (keys_of n))"
      using bisect_left_count[OF s] .
    show f: "find_key_index n k = - (int (length (filter (\<lambda>x. x < k) (keys_of n))) + 1)"
    proof (cases "key_value_pairs n = []")
      case True
      then show ?thesis by (simp add: find_key_index_def keys_of_def)
    next
      case False
      have "\<not> (bisect_left (keys_of n) k < length (keys_of n)
                \<and> keys_of n ! bisect_left (keys_of n) k = k)"
        using nin by (metis nth_mem)
      then show ?thesis using False b
        by (simp add: find_key_index_def Let_def)
    qed
    show "get_child_index n k = int (length (filter (\<lambda>x. x < k) (keys_of n)))"
      by (simp add: get_child_index_def Let_def f)
  qed
qed


theorem find_key_index_sorted_witness:
  "sorted_wrt (<) (keys_of (Node 3 True [KeyValuePair (10::int) (Some (1::int)),
       KeyValuePair 30 None, KeyValuePair 50 None, KeyValuePair 70 None] []))
   \<and> find_key_index (Node 3 True [KeyValuePair (10::int) (Some (1::int)),
       KeyValuePair 30 None, KeyValuePair 50 None, KeyValuePair 70 None] []) 40 = - 3
   \<and> get_child_index (Node 3 True [KeyValuePair (10::int) (Some (1::int)),
       KeyValuePair 30 None, KeyValuePair 50 None, KeyValuePair 70 None] []) 40 = 2
   \<and> get_child_index (Node 3 True [KeyValuePair (10::int) (Some (1::int)),
       KeyValuePair 30 None, KeyValuePair 50 None, KeyValuePair 70 None] []) 50 = 3"
proof -
  let ?n = "Node 3 True [KeyValuePair (10::int) (Some (1::int)),
       KeyValuePair 30 None, KeyValuePair 50 None, KeyValuePair 70 None] []"
  have s: "sorted_wrt (<) (keys_of ?n)" by (simp add: keys_of_def)
  have "find_key_index ?n 40 = - 3 \<and> get_child_index ?n 40 = 2"
    using find_key_index_sorted[OF s, of 40] by (simp add: keys_of_def)
  moreover have "get_child_index ?n 50 = 3"
  proof -
    from find_key_index_sorted[OF s, of 50] obtain i where
      i: "i < 4" "keys_of ?n ! i = 50" "get_child_index ?n 50 = int i + 1"
      by (auto simp: keys_of_def)
    from i(1) have "i = 0 \<or> i = 1 \<or> i = 2 \<or> i = 3" by arith
    with i(2) have "i = 2" by (auto simp: keys_of_def)
    with i(3) show ?thesis by simp
  qed
  ultimately show ?thesis using s by simp
qed

subsection \<open>C6: the order of the repairs\<close>



subsection \<open>C7: the entries a merge combines\<close>

text \<open>
  \<open>merge_sibling_index\<close> is the index of the sibling that \<^verbatim>\<open>_fix_underflow\<close> hands to
  the merge: the left one for \<^verbatim>\<open>_merge_with_left_sibling\<close>, the right one for
  \<^verbatim>\<open>_merge_with_right_sibling\<close>.
\<close>

definition merge_sibling_index :: "repair \<Rightarrow> int \<Rightarrow> int" where
  "merge_sibling_index choice i = (if choice = MergeLeft then i - 1 else i + 1)"

text \<open>
  C7, as amended. Whenever \<^verbatim>\<open>_fix_underflow\<close>, called with a child index that is
  not negative, chooses a merge, the child has fewer than \<open>t - 1\<close> entries and the
  sibling at most \<open>t - 1\<close>, so the entries the merge
  is to combine, those of the child, the separator and those of the sibling (the
  \<^verbatim>\<open>total_keys\<close> of \<^verbatim>\<open>_cannot_safely_merge\<close>), number at most \<open>2t - 2\<close>, below the
  capacity \<open>2t - 1\<close>; \<^verbatim>\<open>_cannot_safely_merge\<close> is false at that point, in either
  order of its arguments, so the test that guards the fallback to borrowing fails.
\<close>

theorem merge_total_fits_capacity:
  assumes "0 \<le> i" and "fix_underflow_choice t parent i = Inr choice"
    and "choice = MergeLeft \<or> choice = MergeRight"
  shows "\<exists>child sibling.
           get_child parent i = Inr child
         \<and> get_child parent (merge_sibling_index choice i) = Inr sibling
         \<and> len child < t - 1 \<and> len sibling \<le> t - 1
         \<and> len child + 1 + len sibling \<le> 2 * t - 2
         \<and> \<not> cannot_safely_merge t sibling child \<and> \<not> cannot_safely_merge t child sibling
         \<and> \<not> (cannot_safely_merge t sibling child \<and> len sibling > t - 1)
         \<and> \<not> (cannot_safely_merge t child sibling \<and> len sibling > t - 1)"
proof (cases "choice = MergeLeft")
  case True
  note f = choice_MergeLeft[OF assms(1) assms(2)[unfolded True]]
  let ?node = "children parent ! nat i" and ?left = "children parent ! nat (i - 1)"
  have small: "len ?node + 1 + len ?left \<le> 2 * t - 2" using f by simp
  have gn: "get_child parent i = Inr ?node" and gl: "get_child parent (i - 1) = Inr ?left"
    using f assms(1) by (simp_all add: get_child_def py_get_nat)
  have "\<not> cannot_safely_merge t ?left ?node \<and> \<not> cannot_safely_merge t ?node ?left"
    using small by (simp add: cannot_safely_merge_def Let_def)
  then show ?thesis
    using True gn gl f small by (simp add: merge_sibling_index_def)
next
  case False
  with assms(3) have R: "choice = MergeRight" by simp
  note f = choice_MergeRight[OF assms(1) assms(2)[unfolded R]]
  let ?node = "children parent ! nat i" and ?right = "children parent ! nat (i + 1)"
  have small: "len ?node + 1 + len ?right \<le> 2 * t - 2" using f by simp
  have gn: "get_child parent i = Inr ?node" and gr: "get_child parent (i + 1) = Inr ?right"
    using f assms(1) by (simp_all add: get_child_def py_get_nat)
  have "\<not> cannot_safely_merge t ?right ?node \<and> \<not> cannot_safely_merge t ?node ?right"
    using small by (simp add: cannot_safely_merge_def Let_def)
  then show ?thesis
    using R gn gr f small by (simp add: merge_sibling_index_def)
qed

theorem merge_total_fits_capacity_witness:
  "fix_underflow_choice 2
     (Node 2 False [KeyValuePair (2::int) (Some (20::int)), KeyValuePair 4 None]
        [Node 2 True [KeyValuePair 1 None] [], Node 2 True [] [],
         Node 2 True [KeyValuePair 5 None] []]) 1 = Inr MergeLeft
   \<and> (\<exists>child sibling.
         get_child (Node 2 False [KeyValuePair (2::int) (Some (20::int)), KeyValuePair 4 None]
            [Node 2 True [KeyValuePair 1 None] [], Node 2 True [] [],
             Node 2 True [KeyValuePair 5 None] []]) 1 = Inr child
       \<and> get_child (Node 2 False [KeyValuePair (2::int) (Some (20::int)), KeyValuePair 4 None]
            [Node 2 True [KeyValuePair 1 None] [], Node 2 True [] [],
             Node 2 True [KeyValuePair 5 None] []]) 0 = Inr sibling
       \<and> len child + 1 + len sibling \<le> 2
       \<and> \<not> cannot_safely_merge 2 sibling child)"
proof -
  let ?q = "Node 2 False [KeyValuePair (2::int) (Some (20::int)), KeyValuePair 4 None]
        [Node 2 True [KeyValuePair 1 None] [], Node 2 True [] [],
         Node 2 True [KeyValuePair 5 None] []]"
  have c: "fix_underflow_choice 2 ?q 1 = Inr MergeLeft" by code_simp
  from merge_total_fits_capacity[OF _ c] obtain child sibling where
    "get_child ?q 1 = Inr child" "get_child ?q (merge_sibling_index MergeLeft 1) = Inr sibling"
    "len child + 1 + len sibling \<le> 2 * 2 - 2" "\<not> cannot_safely_merge 2 sibling child"
    by auto
  then show ?thesis using c by (auto simp: merge_sibling_index_def)
qed

text \<open>
  C7 as stated gives \<open>2(t - 1) + 1\<close> as the least number of entries of a merged
  node. In \<open>merge_example\<close>, with minimum degree 2, the left leaf is empty and its
  right sibling holds one entry: \<^verbatim>\<open>_fix_underflow\<close> chooses the merge with the right
  sibling, and the child, the separator and the sibling hold 2 entries together, not
  3. The merge itself then stops in \<^verbatim>\<open>insert_key_value\<close>, at the constructor of the
  entry.
\<close>

definition merge_example :: "(int, int) node" where
  "merge_example =
     Node 2 False [KeyValuePair 2 (Some 20)]
       [Node 2 True [] [], Node 2 True [KeyValuePair 3 (Some 30)] []]"

theorem merge_total_below_claimed_minimum:
  "fix_underflow_choice 2 merge_example 0 = Inr MergeRight
   \<and> get_child merge_example 0 = Inr (Node 2 True [] [])
   \<and> get_child merge_example 1 = Inr (Node 2 True [KeyValuePair 3 (Some 30)] [])
   \<and> len (Node 2 True [] [] :: (int, int) node) + 1
        + len (Node 2 True [KeyValuePair (3::int) (Some (30::int))] []) = 2
   \<and> \<not> (2 * (2 - 1) + 1
          \<le> len (Node 2 True [] [] :: (int, int) node) + 1
               + len (Node 2 True [KeyValuePair (3::int) (Some (30::int))] []))
   \<and> fix_underflow 2 merge_example 0 = Inl TypeError"
  by code_simp

subsection \<open>C8: construction\<close>

text \<open>
  C8 states that construction fails exactly on a minimum degree below 2 or a null key
  and succeeds otherwise. As the constructors are written, an entry with a non-null
  key, a node and a tree with a minimum degree of at least 2 are not constructed
  either: the slot write raises TypeError.
\<close>

theorem construction_as_written:
  "BTreeNode_init t leaf = (if t < 2 then Inl ValueError else Inl TypeError)
   \<and> KeyValuePair_init k v = (case k of None \<Rightarrow> Inl ValueError | Some k' \<Rightarrow> Inl TypeError)
   \<and> BTreeIndex_init t = (if t < 2 then Inl ValueError else Inl TypeError)"
  by (simp add: BTreeNode_init_def KeyValuePair_init_def BTreeIndex_init_def
        unbound_setattr_def split: option.splits)

subsection \<open>C9: the setter of the leaf flag\<close>

text \<open>
  C9. For every node and every boolean, the setter of \<^verbatim>\<open>is_leaf\<close> calls itself
  instead of writing \<^verbatim>\<open>_is_leaf\<close>: the call returns no node, and with any number of
  frames left it ends in the interpreter's RecursionError, so the flag is never
  changed.
\<close>

theorem is_leaf_setter_never_returns:
  "is_leaf_setter n v = None \<and> is_leaf_setter_depth d n v = Inl RecursionError"
  by (simp add: setter_none setter_depth)

subsection \<open>C1 to C4: the operations of the tree\<close>

text \<open>
  A sequence of operations on a fresh tree begins with \<^verbatim>\<open>BTreeIndex(t)\<close>, which
  raises (C8). \<open>tree_1_to_5\<close> is a tree object of minimum degree 2 that satisfies the
  six invariants: the root holds the key 2 over the leaf with the key 1 and the full
  leaf with the keys 3, 4 and 5, whose median is 4.
\<close>

definition tree_1_to_5 :: "(int, int) btree_index" where
  "tree_1_to_5 =
     \<lparr>tree_min_degree = 2,
      root = Node 2 False [KeyValuePair 2 (Some 20)]
               [Node 2 True [KeyValuePair 1 (Some 10)] [],
                Node 2 True [KeyValuePair 3 (Some 30), KeyValuePair 4 (Some 40),
                             KeyValuePair 5 (Some 50)] []],
      tree_size = 5\<rparr>"

text \<open>
  C1 states that inserting a key that is present overwrites its value and returns the
  previous value, also when the key is the median of a full child. As the code is
  written, the sequence \<^verbatim>\<open>BTreeIndex(3); insert(1, 100); insert(1, 200)\<close> ends in
  TypeError at its first call. On the tree object \<open>tree_1_to_5\<close>, where the key 4 is
  found with the value 40, \<open>insert 4 99\<close> meets the full leaf, removes its median
  and raises TypeError at the call of \<^verbatim>\<open>BTreeNode\<close> in \<^verbatim>\<open>_split_node\<close>.
\<close>

theorem insert_present_key_raises:
  "bind (BTreeIndex_init 3) (\<lambda>T.
     bind (insert_btree T (1::int) (Some (100::int))) (\<lambda>(T1, _).
       insert_btree T1 1 (Some 200))) = Inl TypeError
   \<and> btree_invariants tree_1_to_5
   \<and> search tree_1_to_5 4 = Inr (Some 40)
   \<and> insert_btree tree_1_to_5 4 (Some 99) = Inl TypeError"
proof -
  have "bind (BTreeIndex_init 3) (\<lambda>T.
     bind (insert_btree T (1::int) (Some (100::int))) (\<lambda>(T1, _).
       insert_btree T1 1 (Some 200))) = Inl TypeError"
    by (simp add: BTreeIndex_init_raises)
  moreover have "btree_invariants tree_1_to_5" by code_simp
  moreover have "search tree_1_to_5 4 = Inr (Some 40)" by code_simp
  moreover have "insert_btree tree_1_to_5 4 (Some 99) = Inl TypeError" by code_simp
  ultimately show ?thesis by simp
qed

text \<open>
  C2 states that the six invariants hold after any sequence of inserts and deletes on
  a fresh tree. As the code is written, for every minimum degree and every sequence
  the constructor raises before the first operation: no tree is returned, and so
  none that satisfies the invariants. On the tree object \<open>tree_1_to_5\<close> the insert
  of the new key 0 reaches a leaf with room and raises TypeError at the constructor of
  the entry.
\<close>

theorem no_tree_after_any_sequence:
  "bind (BTreeIndex_init t) (\<lambda>T. run T ops)
     = Inl (if t < 2 then ValueError else TypeError)
   \<and> \<not> (\<exists>T'. bind (BTreeIndex_init t) (\<lambda>T. run T ops) = Inr T' \<and> btree_invariants T')
   \<and> run tree_1_to_5 [Insert 0 (Some 0)] = Inl TypeError"
proof -
  have "run tree_1_to_5 [Insert 0 (Some 0)] = Inl TypeError" by code_simp
  then show ?thesis by (simp add: BTreeIndex_init_raises)
qed

text \<open>
  C3 states that \<open>delete k\<close> returns the value of a key that is present and leaves
  the key absent, with the size one less. As the code is written, the sequence
  \<^verbatim>\<open>BTreeIndex(3); insert(1, 100); delete(1)\<close> ends in TypeError at its first call. On
  the tree object \<open>tree_1_to_5\<close>, \<open>delete 2\<close> finds the key in the root and raises
  TypeError when it stores the successor with \<^verbatim>\<open>insert_key_value\<close>; \<open>delete 1\<close>
  empties the left leaf and raises TypeError in the repair, which borrows from the
  right sibling through \<^verbatim>\<open>insert_key_value\<close>.
\<close>

theorem delete_present_key_raises:
  "bind (BTreeIndex_init 3) (\<lambda>T.
     bind (insert_btree T (1::int) (Some (100::int))) (\<lambda>(T1, _). delete T1 1))
     = Inl TypeError
   \<and> search tree_1_to_5 2 = Inr (Some 20) \<and> delete tree_1_to_5 2 = Inl TypeError
   \<and> search tree_1_to_5 1 = Inr (Some 10) \<and> delete tree_1_to_5 1 = Inl TypeError"
proof -
  have "bind (BTreeIndex_init 3) (\<lambda>T.
     bind (insert_btree T (1::int) (Some (100::int))) (\<lambda>(T1, _). delete T1 1))
     = Inl TypeError"
    by (simp add: BTreeIndex_init_raises)
  moreover have "search tree_1_to_5 2 = Inr (Some 20)" by code_simp
  moreover have "delete tree_1_to_5 2 = Inl TypeError" by code_simp
  moreover have "search tree_1_to_5 1 = Inr (Some 10)" by code_simp
  moreover have "delete tree_1_to_5 1 = Inl TypeError" by code_simp
  ultimately show ?thesis by simp
qed

text \<open>
  C4 states that a key whose most recent insert bound it to \<open>v\<close>, and which was not
  deleted since, is found with \<open>v\<close>. As the code is written, the sequence
  \<^verbatim>\<open>BTreeIndex(3); insert(10, 100); search(10)\<close> ends in TypeError at its first call;
  and on the empty tree object that the body of the constructor describes, for every
  minimum degree, key and value, the insert raises TypeError at the constructor of
  the entry, so no key is bound.
\<close>

theorem round_trip_raises:
  "bind (BTreeIndex_init 3) (\<lambda>T.
     bind (insert_btree T (10::int) (Some (100::int))) (\<lambda>(T1, _). search T1 10))
     = Inl TypeError
   \<and> insert_btree \<lparr>tree_min_degree = t, root = Node t True [] [], tree_size = 0\<rparr> k v
     = Inl TypeError"
  by (simp add: BTreeIndex_init_raises insert_btree_def is_empty_def insert_key_value_raises)

subsection \<open>C10: a stored null value\<close>






end
